theory Spec2Isabelle
  imports Complex_Main
begin

section \<open>Values shared by the importers\<close>

text \<open>
  The importers of \<^verbatim>\<open>io_scene_psk_psa\<close> are Python. An uncaught exception is a
  value of \<open>py_error\<close>, and a function that can raise returns \<open>py_error + 'a\<close>.
  Floating-point numbers are modelled as exact reals.
\<close>

datatype py_error = IndexError | KeyError | ValueError | ZeroDivisionError | RuntimeError
  | UnicodeDecodeError

datatype quaternion = Quaternion (qw: real) (qx: real) (qy: real) (qz: real)

datatype vector = Vector (vx: real) (vy: real) (vz: real)

definition conjugated :: "quaternion \<Rightarrow> quaternion" where
  "conjugated q = Quaternion (qw q) (- qx q) (- qy q) (- qz q)"

definition vector_sub :: "vector \<Rightarrow> vector \<Rightarrow> vector" where
  "vector_sub a b = Vector (vx a - vx b) (vy a - vy b) (vz a - vz b)"


text \<open>
  The rotation methods of the \<^verbatim>\<open>mathutils\<close> library are not part of the repository:
  \<^verbatim>\<open>a.rotate(b)\<close> is a parameter of the model. \<open>quat_rotate M a b\<close> is the value of the
  quaternion \<open>a\<close> after \<^verbatim>\<open>a.rotate(b)\<close>, and \<open>vec_rotate M v b\<close> the value of the vector
  \<open>v\<close> after \<^verbatim>\<open>v.rotate(b)\<close>.
\<close>

record mathutils =
  quat_rotate :: "quaternion \<Rightarrow> quaternion \<Rightarrow> quaternion"
  vec_rotate :: "vector \<Rightarrow> quaternion \<Rightarrow> vector"

text \<open>
  An instance in exact arithmetic, used to evaluate the model: the Hamilton product, with
  \<^verbatim>\<open>a.rotate(b)\<close> read as the rotation \<open>a\<close> followed by the rotation \<open>b\<close>.
\<close>

definition hamilton :: "quaternion \<Rightarrow> quaternion \<Rightarrow> quaternion" where
  "hamilton p q = Quaternion
     (qw p * qw q - qx p * qx q - qy p * qy q - qz p * qz q)
     (qw p * qx q + qx p * qw q + qy p * qz q - qz p * qy q)
     (qw p * qy q - qx p * qz q + qy p * qw q + qz p * qx q)
     (qw p * qz q + qx p * qy q - qy p * qx q + qz p * qw q)"

definition hamilton_vec_rotate :: "vector \<Rightarrow> quaternion \<Rightarrow> vector" where
  "hamilton_vec_rotate v q =
     (let r = hamilton (hamilton q (Quaternion 0 (vx v) (vy v) (vz v))) (conjugated q)
      in Vector (qx r) (qy r) (qz r))"

definition exact_mathutils :: mathutils where
  "exact_mathutils = \<lparr> quat_rotate = (\<lambda>a b. hamilton b a), vec_rotate = hamilton_vec_rotate \<rparr>"

section \<open>The animation importer (psa/importer.py)\<close>

subsection \<open>Import bones\<close>

text \<open>
  An f-curve of an action is identified by the data path of a pose bone (its name and
  whether the path is the rotation or the location) and the array index.
\<close>

datatype data_path = Rotation_quaternion string | Location string

type_synonym fcurve = "data_path \<times> nat"

record import_bone =
  ib_name :: string
  ib_parent :: "string option"
  orig_loc :: vector
  orig_quat :: quaternion
  post_quat :: quaternion
  fcurves :: "fcurve list"

text \<open>The nested function \<^verbatim>\<open>calculate_fcurve_data\<close>, statement by statement.\<close>

fun calculate_fcurve_data :: "mathutils \<Rightarrow> import_bone \<Rightarrow> real list \<Rightarrow> py_error + real list" where
  "calculate_fcurve_data M import_bone [k0, k1, k2, k3, k4, k5, k6] =
     (let key_rotation = Quaternion k0 k1 k2 k3;
          key_location = Vector k4 k5 k6;
          q = post_quat import_bone;
          q = quat_rotate M q (orig_quat import_bone);
          quat = q;
          q = post_quat import_bone;
          q = (if ib_parent import_bone = None
               then quat_rotate M q (conjugated key_rotation)
               else quat_rotate M q key_rotation);
          quat = quat_rotate M quat (conjugated q);
          loc = vector_sub key_location (orig_loc import_bone);
          loc = vec_rotate M loc (conjugated (post_quat import_bone))
      in Inr [qw quat, qx quat, qy quat, qz quat, vx loc, vy loc, vz loc])"
| "calculate_fcurve_data M import_bone key_data = Inl ValueError"

subsection \<open>Indexing the sample matrix\<close>

text \<open>
  The sample matrix is indexed by frame, bone and channel. Reading or writing outside the
  array raises \<^verbatim>\<open>IndexError\<close>.
\<close>

definition getitem2 :: "'a list list \<Rightarrow> nat \<Rightarrow> nat \<Rightarrow> py_error + 'a" where
  "getitem2 m i j = (if i < length m \<and> j < length (m ! i) then Inr (m ! i ! j) else Inl IndexError)"

definition setitem2 :: "'a list list \<Rightarrow> nat \<Rightarrow> nat \<Rightarrow> 'a \<Rightarrow> py_error + 'a list list" where
  "setitem2 m i j v =
     (if i < length m \<and> j < length (m ! i) then Inr (m[i := (m ! i)[j := v]]) else Inl IndexError)"

definition setitem3 :: "'a list list list \<Rightarrow> nat \<Rightarrow> nat \<Rightarrow> nat \<Rightarrow> 'a \<Rightarrow> py_error + 'a list list list" where
  "setitem3 m i j k v =
     (if i < length m \<and> j < length (m ! i) \<and> k < length (m ! i ! j)
      then Inr (m[i := (m ! i)[j := (m ! i ! j)[k := v]]]) else Inl IndexError)"

text \<open>The slice \<^verbatim>\<open>m[:, bone_index, fcurve_index]\<close>.\<close>

definition slice_fcurve :: "'a list list list \<Rightarrow> nat \<Rightarrow> nat \<Rightarrow> py_error + 'a list" where
  "slice_fcurve m j k =
     (if \<forall>row \<in> set m. j < length row \<and> k < length (row ! j)
      then Inr (map (\<lambda>row. row ! j ! k) m) else Inl IndexError)"

subsection \<open>World space to local space\<close>

fun convert_frames ::
  "mathutils \<Rightarrow> import_bone \<Rightarrow> nat \<Rightarrow> nat list \<Rightarrow> real list list list \<Rightarrow> py_error + real list list list" where
  "convert_frames M import_bone bone_index [] m = Inr m"
| "convert_frames M import_bone bone_index (frame_index # frames) m =
     (case getitem2 m frame_index bone_index of
        Inl e \<Rightarrow> Inl e
      | Inr key_data \<Rightarrow>
          (case calculate_fcurve_data M import_bone key_data of
             Inl e \<Rightarrow> Inl e
           | Inr local \<Rightarrow>
               (case setitem2 m frame_index bone_index local of
                  Inl e \<Rightarrow> Inl e
                | Inr m' \<Rightarrow> convert_frames M import_bone bone_index frames m')))"

fun convert_bones ::
  "mathutils \<Rightarrow> (nat \<times> import_bone option) list \<Rightarrow> nat \<Rightarrow> real list list list \<Rightarrow> py_error + real list list list" where
  "convert_bones M [] frame_count m = Inr m"
| "convert_bones M ((bone_index, None) # bones) frame_count m = convert_bones M bones frame_count m"
| "convert_bones M ((bone_index, Some import_bone) # bones) frame_count m =
     (case convert_frames M import_bone bone_index [0..<frame_count] m of
        Inl e \<Rightarrow> Inl e
      | Inr m' \<Rightarrow> convert_bones M bones frame_count m')"

definition convert_sequence ::
  "mathutils \<Rightarrow> import_bone option list \<Rightarrow> nat \<Rightarrow> real list list list \<Rightarrow> py_error + real list list list" where
  "convert_sequence M import_bones frame_count m =
     convert_bones M (enumerate 0 import_bones) frame_count m"

subsection \<open>Cleaning the keys\<close>

fun clean_fcurve ::
  "real \<Rightarrow> nat \<Rightarrow> nat \<Rightarrow> (nat \<times> real) list \<Rightarrow> real \<Rightarrow> int list list list \<Rightarrow> py_error + int list list list" where
  "clean_fcurve threshold bone_index fcurve_index [] last_written_datum w = Inr w"
| "clean_fcurve threshold bone_index fcurve_index ((frame_index, datum) # rest) last_written_datum w =
     (if frame_index > 0 \<and> \<bar>datum - last_written_datum\<bar> < threshold
      then (case setitem3 w frame_index bone_index fcurve_index 0 of
              Inl e \<Rightarrow> Inl e
            | Inr w' \<Rightarrow> clean_fcurve threshold bone_index fcurve_index rest last_written_datum w')
      else clean_fcurve threshold bone_index fcurve_index rest datum w)"

fun clean_fcurves ::
  "real \<Rightarrow> nat \<Rightarrow> nat list \<Rightarrow> real list list list \<Rightarrow> int list list list \<Rightarrow> py_error + int list list list" where
  "clean_fcurves threshold bone_index [] m w = Inr w"
| "clean_fcurves threshold bone_index (fcurve_index # rest) m w =
     (case slice_fcurve m bone_index fcurve_index of
        Inl e \<Rightarrow> Inl e
      | Inr fcurve_frame_data \<Rightarrow>
          (case clean_fcurve threshold bone_index fcurve_index (enumerate 0 fcurve_frame_data) 0 w of
             Inl e \<Rightarrow> Inl e
           | Inr w' \<Rightarrow> clean_fcurves threshold bone_index rest m w'))"

fun clean_bones ::
  "real \<Rightarrow> (nat \<times> import_bone option) list \<Rightarrow> real list list list \<Rightarrow> int list list list \<Rightarrow> py_error + int list list list" where
  "clean_bones threshold [] m w = Inr w"
| "clean_bones threshold ((bone_index, None) # bones) m w = clean_bones threshold bones m w"
| "clean_bones threshold ((bone_index, Some import_bone) # bones) m w =
     (case clean_fcurves threshold bone_index [0..<length (fcurves import_bone)] m w of
        Inl e \<Rightarrow> Inl e
      | Inr w' \<Rightarrow> clean_bones threshold bones m w')"

definition ones_like :: "real list list list \<Rightarrow> int list list list" where
  "ones_like m = map (map (map (\<lambda>_. 1))) m"

definition clean_keys ::
  "real \<Rightarrow> import_bone option list \<Rightarrow> real list list list \<Rightarrow> py_error + int list list list" where
  "clean_keys threshold import_bones m = clean_bones threshold (enumerate 0 import_bones) m (ones_like m)"

subsection \<open>Shape of the matrices\<close>

text \<open>
  The reader returns a matrix of shape (frames, bones, 7): every frame has one row per
  bone of the animation file and every row has the seven channels.
\<close>

definition wf_matrix :: "nat \<Rightarrow> 'a list list list \<Rightarrow> bool" where
  "wf_matrix B m = (\<forall>row \<in> set m. length row = B \<and> (\<forall>cell \<in> set row. length cell = 7))"

subsection \<open>The thinning rule as a function of one channel\<close>

text \<open>
  \<open>keep_list t ds\<close> is the list of keep flags of a channel with the values \<open>ds\<close>: the
  first frame is kept, a later frame is kept when it differs from the last kept value by
  no less than \<open>t\<close>. It is the reference the loops of the importer are compared with.
\<close>

fun keep_from :: "real \<Rightarrow> real \<Rightarrow> real list \<Rightarrow> bool list" where
  "keep_from t lst [] = []"
| "keep_from t lst (d # ds) =
     (if \<bar>d - lst\<bar> < t then False # keep_from t lst ds else True # keep_from t d ds)"

definition keep_list :: "real \<Rightarrow> real list \<Rightarrow> bool list" where
  "keep_list t ds = (case ds of [] \<Rightarrow> [] | d # rest \<Rightarrow> True # keep_from t d rest)"

subsection \<open>The conversion formula of the specification\<close>

text \<open>
  The formula of the specification for one sample, written from its words. The composition
  \<open>a \<circ> b\<close> of the specification is the library call \<^verbatim>\<open>a.rotate(b)\<close>, with the operands in
  the order in which they are written, and \<open>rotate(v, q)\<close> is \<^verbatim>\<open>v.rotate(q)\<close>.
\<close>

definition key_rotation_of :: "real list \<Rightarrow> quaternion" where
  "key_rotation_of key_data = Quaternion (key_data ! 0) (key_data ! 1) (key_data ! 2) (key_data ! 3)"

definition key_location_of :: "real list \<Rightarrow> vector" where
  "key_location_of key_data = Vector (key_data ! 4) (key_data ! 5) (key_data ! 6)"

definition sample_of :: "quaternion \<Rightarrow> vector \<Rightarrow> real list" where
  "sample_of r l = [qw r, qx r, qy r, qz r, vx l, vy l, vz l]"

definition spec_local_rotation :: "mathutils \<Rightarrow> import_bone \<Rightarrow> quaternion \<Rightarrow> quaternion" where
  "spec_local_rotation M ib key_rotation =
     (let q = quat_rotate M (post_quat ib) (orig_quat ib);
          q' = quat_rotate M (post_quat ib)
                 (if ib_parent ib = None then conjugated key_rotation else key_rotation)
      in quat_rotate M q (conjugated q'))"

definition spec_local_translation :: "mathutils \<Rightarrow> import_bone \<Rightarrow> vector \<Rightarrow> vector" where
  "spec_local_translation M ib key_location =
     vec_rotate M (vector_sub key_location (orig_loc ib)) (conjugated (post_quat ib))"

subsection \<open>Example data\<close>

definition bone_a :: import_bone where
  "bone_a = \<lparr> ib_name = ''Root'', ib_parent = None, orig_loc = Vector 1 0 0,
              orig_quat = Quaternion 0 0 1 0, post_quat = Quaternion 0 0 (-1) 0,
              fcurves = [] \<rparr>"


definition bone_b :: import_bone where
  "bone_b = \<lparr> ib_name = ''Child'', ib_parent = Some ''Root'', orig_loc = Vector 0 1 0,
              orig_quat = Quaternion 1 0 0 0, post_quat = Quaternion 1 0 0 0,
              fcurves = [(Rotation_quaternion ''Child'', 0), (Rotation_quaternion ''Child'', 1),
                         (Rotation_quaternion ''Child'', 2), (Rotation_quaternion ''Child'', 3),
                         (Location ''Child'', 0), (Location ''Child'', 1), (Location ''Child'', 2)] \<rparr>"


subsection \<open>Mapping the bones of the file to the armature\<close>












subsection \<open>One sequence\<close>











subsection \<open>Removing a bone of the file\<close>








text \<open>The position of a bone of the reduced file in the full file.\<close>

definition shift_index :: "nat \<Rightarrow> nat \<Rightarrow> nat" where
  "shift_index k b = (if b < k then b else Suc b)"

subsection \<open>An example armature and sequence\<close>




section \<open>The mesh importer (psk/importer.py)\<close>

subsection \<open>Matrices of the host library\<close>

text \<open>
  A rotation matrix has three rows. A 4x4 matrix is used by the importer only as a rotation
  part with a translation column. As for the quaternions, the matrix operations of
  \<^verbatim>\<open>mathutils\<close> are parameters of the model: \<open>quat_to_matrix\<close> is \<^verbatim>\<open>q.to_matrix()\<close>,
  \<open>mat_rotate a b\<close> is the value of \<open>a\<close> after \<^verbatim>\<open>a.rotate(b)\<close> and \<open>vec_rotate_mat v a\<close> the
  value of the vector \<open>v\<close> after \<^verbatim>\<open>v.rotate(a)\<close>.
\<close>

datatype matrix3 = Matrix3 (row0: vector) (row1: vector) (row2: vector)

record matrix4 =
  m4_rotation :: matrix3
  m4_translation :: vector












subsection \<open>The skeleton\<close>


text \<open>
  The class \<^verbatim>\<open>ImportBone\<close> of \<^verbatim>\<open>import_psk\<close>. The fields \<open>bone_name\<close> and \<open>bone_parent_index\<close>
  are the name and the parent index of its \<^verbatim>\<open>psk_bone\<close>, the latter as the first loop
  rewrites it; \<open>parent\<close> is the index of the import bone that \<^verbatim>\<open>parent\<close> refers to.
\<close>

record psk_import_bone =
  bone_index :: nat
  bone_name :: "string option"
  bone_parent_index :: int
  parent :: "nat option"
  local_rotation :: quaternion
  local_translation :: vector
  world_rotation_matrix :: matrix3
  world_matrix :: matrix4


















section \<open>The loops of the animation importer\<close>

lemma calculate_fcurve_data_total:
  assumes "length k = 7"
  shows "\<exists>v. calculate_fcurve_data M ib k = Inr v \<and> length v = 7"
proof -
  from assms obtain k0 k1 k2 k3 k4 k5 k6 where "k = [k0, k1, k2, k3, k4, k5, k6]"
    by (auto simp: numeral_eq_Suc length_Suc_conv)
  then show ?thesis by (simp add: Let_def)
qed

lemma convert_frames_char:
  assumes "\<forall>f \<in> set fs. f < length m" and "distinct fs"
    and "\<forall>row \<in> set m. b < length row \<and> length (row ! b) = 7"
  shows "\<exists>m'. convert_frames M ib b fs m = Inr m' \<and> length m' = length m \<and>
           (\<forall>f < length m. length (m' ! f) = length (m ! f) \<and>
              (\<forall>b' < length (m ! f).
                 if b' = b \<and> f \<in> set fs
                 then calculate_fcurve_data M ib (m ! f ! b) = Inr (m' ! f ! b')
                 else m' ! f ! b' = m ! f ! b'))"
  using assms
proof (induction fs arbitrary: m)
  case Nil
  then show ?case by simp
next
  case (Cons f fs)
  have fl: "f < length m" using Cons.prems by simp
  have bl: "b < length (m ! f)" "length (m ! f ! b) = 7" using Cons.prems(3) fl by auto
  obtain v where v: "calculate_fcurve_data M ib (m ! f ! b) = Inr v" "length v = 7"
    using calculate_fcurve_data_total[OF bl(2)] by blast
  let ?m1 = "m[f := (m ! f)[b := v]]"
  have step: "convert_frames M ib b (f # fs) m = convert_frames M ib b fs ?m1"
    using fl bl v by (simp add: getitem2_def setitem2_def)
  have p1: "\<forall>f \<in> set fs. f < length ?m1" using Cons.prems by simp
  have p2: "distinct fs" using Cons.prems by simp
  have p3: "\<forall>row \<in> set ?m1. b < length row \<and> length (row ! b) = 7"
  proof
    fix row assume "row \<in> set ?m1"
    then have "row = (m ! f)[b := v] \<or> row \<in> set m"
      using set_update_subset_insert[of m f "(m ! f)[b := v]"] by auto
    then show "b < length row \<and> length (row ! b) = 7"
      using bl v Cons.prems(3) by auto
  qed
  from Cons.IH[OF p1 p2 p3] obtain m' where m':
    "convert_frames M ib b fs ?m1 = Inr m'" "length m' = length ?m1"
    "\<forall>g < length ?m1. length (m' ! g) = length (?m1 ! g) \<and>
              (\<forall>b' < length (?m1 ! g).
                 if b' = b \<and> g \<in> set fs
                 then calculate_fcurve_data M ib (?m1 ! g ! b) = Inr (m' ! g ! b')
                 else m' ! g ! b' = ?m1 ! g ! b')" by blast
  have nf: "f \<notin> set fs" using Cons.prems by simp
  show ?case
  proof (intro exI conjI allI impI)
    show "convert_frames M ib b (f # fs) m = Inr m'" using step m'(1) by simp
    show "length m' = length m" using m'(2) by simp
  next
    fix g assume g: "g < length m"
    then show "length (m' ! g) = length (m ! g)" using m'(3) by (cases "g = f") auto
  next
    fix g b' assume g: "g < length m" and b': "b' < length (m ! g)"
    have g1: "g < length ?m1" using g by simp
    have b1: "b' < length (?m1 ! g)" using g b' by (cases "g = f") auto
    from m'(3) g1 b1 have H: "if b' = b \<and> g \<in> set fs
                 then calculate_fcurve_data M ib (?m1 ! g ! b) = Inr (m' ! g ! b')
                 else m' ! g ! b' = ?m1 ! g ! b'" by blast
    show "if b' = b \<and> g \<in> set (f # fs)
          then calculate_fcurve_data M ib (m ! g ! b) = Inr (m' ! g ! b')
          else m' ! g ! b' = m ! g ! b'"
    proof (cases "g = f")
      case True
      then show ?thesis using H nf v fl bl b' by (cases "b' = b") auto
    next
      case False
      then show ?thesis using H g by auto
    qed
  qed
qed


lemma wf_matrix_nth:
  "wf_matrix B m \<Longrightarrow> f < length m \<Longrightarrow> length (m ! f) = B"
  "wf_matrix B m \<Longrightarrow> f < length m \<Longrightarrow> b < B \<Longrightarrow> length (m ! f ! b) = 7"
proof -
  assume "wf_matrix B m" "f < length m"
  then show l: "length (m ! f) = B" unfolding wf_matrix_def using nth_mem by blast
  assume "wf_matrix B m" "f < length m" "b < B"
  then have "m ! f \<in> set m" "m ! f ! b \<in> set (m ! f)" using l by simp_all
  then show "length (m ! f ! b) = 7" using \<open>wf_matrix B m\<close> unfolding wf_matrix_def by blast
qed

lemma wf_matrixI:
  assumes "\<And>f. f < length m \<Longrightarrow> length (m ! f) = B"
    and "\<And>f b. f < length m \<Longrightarrow> b < B \<Longrightarrow> length (m ! f ! b) = 7"
  shows "wf_matrix B m"
  unfolding wf_matrix_def
proof (intro ballI conjI)
  fix row assume "row \<in> set m"
  then obtain f where f: "f < length m" "row = m ! f" by (auto simp: in_set_conv_nth)
  show "length row = B" using assms(1) f by simp
  fix cell assume "cell \<in> set row"
  then obtain b where "b < length row" "cell = row ! b" by (auto simp: in_set_conv_nth)
  then show "length cell = 7" using assms(1)[OF f(1)] assms(2)[OF f(1)] f(2) by simp
qed

lemma convert_bones_char:
  assumes "distinct (map fst bs)" and "\<forall>p \<in> set bs. fst p < B"
    and "wf_matrix B m" and "F \<le> length m"
  shows "\<exists>m'. convert_bones M bs F m = Inr m' \<and> length m' = length m \<and> wf_matrix B m' \<and>
           (\<forall>f < length m. \<forall>b < B.
              (\<forall>ib. (b, Some ib) \<in> set bs \<and> f < F \<longrightarrow>
                  calculate_fcurve_data M ib (m ! f ! b) = Inr (m' ! f ! b)) \<and>
              (((\<forall>ib. (b, Some ib) \<notin> set bs) \<or> F \<le> f) \<longrightarrow> m' ! f ! b = m ! f ! b))"
  using assms
proof (induction bs arbitrary: m)
  case Nil
  then show ?case by simp
next
  case (Cons p bs)
  obtain i o_ib where p: "p = (i, o_ib)" by (cases p)
  have iB: "i < B" using Cons.prems(2) p by simp
  have d: "distinct (map fst bs)" and ni: "i \<notin> fst ` set bs" using Cons.prems(1) p by auto
  have lt: "\<forall>p \<in> set bs. fst p < B" using Cons.prems(2) by simp
  show ?case
  proof (cases o_ib)
    case None
    from Cons.IH[OF d lt Cons.prems(3,4)] obtain m' where m':
      "convert_bones M bs F m = Inr m'" "length m' = length m" "wf_matrix B m'"
      "\<forall>f < length m. \<forall>b < B.
              (\<forall>ib. (b, Some ib) \<in> set bs \<and> f < F \<longrightarrow>
                  calculate_fcurve_data M ib (m ! f ! b) = Inr (m' ! f ! b)) \<and>
              (((\<forall>ib. (b, Some ib) \<notin> set bs) \<or> F \<le> f) \<longrightarrow> m' ! f ! b = m ! f ! b)"
      by blast
    show ?thesis
      using m' p None by (intro exI[of _ m']) auto
  next
    case (Some ib0)
    have c1: "\<forall>f \<in> set [0..<F]. f < length m" using Cons.prems(4) by simp
    have c3: "\<forall>row \<in> set m. i < length row \<and> length (row ! i) = 7"
      using Cons.prems(3) iB by (auto simp: wf_matrix_def)
    from convert_frames_char[OF c1 _ c3, of M ib0] obtain m1 where m1:
      "convert_frames M ib0 i [0..<F] m = Inr m1" "length m1 = length m"
      "\<forall>f < length m. length (m1 ! f) = length (m ! f) \<and>
              (\<forall>b' < length (m ! f).
                 if b' = i \<and> f \<in> set [0..<F]
                 then calculate_fcurve_data M ib0 (m ! f ! i) = Inr (m1 ! f ! b')
                 else m1 ! f ! b' = m ! f ! b')" by auto
    have m1_same: "m1 ! f ! b = m ! f ! b" if "f < length m" "b < B" "b \<noteq> i \<or> F \<le> f" for f b
      using m1(3) that wf_matrix_nth(1)[OF Cons.prems(3) that(1)] by auto
    have m1_conv: "calculate_fcurve_data M ib0 (m ! f ! i) = Inr (m1 ! f ! i)" if "f < F" for f
      using m1(3) that iB Cons.prems(4) wf_matrix_nth(1)[OF Cons.prems(3), of f] by auto
    have wf1: "wf_matrix B m1"
    proof (rule wf_matrixI)
      fix f assume f: "f < length m1"
      then show "length (m1 ! f) = B" using m1(2,3) wf_matrix_nth(1)[OF Cons.prems(3)] by auto
      fix b assume b: "b < B"
      show "length (m1 ! f ! b) = 7"
      proof (cases "b = i \<and> f < F")
        case True
        then have "calculate_fcurve_data M ib0 (m ! f ! i) = Inr (m1 ! f ! i)" using m1_conv by simp
        moreover have "length (m ! f ! i) = 7" using wf_matrix_nth(2)[OF Cons.prems(3)] f m1(2) iB by simp
        ultimately show ?thesis using calculate_fcurve_data_total[of "m ! f ! i" M ib0] True by auto
      next
        case False
        then have "m1 ! f ! b = m ! f ! b" using m1_same f b m1(2) by auto
        then show ?thesis using wf_matrix_nth(2)[OF Cons.prems(3)] f b m1(2) by simp
      qed
    qed
    have F1: "F \<le> length m1" using m1(2) Cons.prems(4) by simp
    from Cons.IH[OF d lt wf1 F1] obtain m' where m':
      "convert_bones M bs F m1 = Inr m'" "length m' = length m1" "wf_matrix B m'"
      "\<forall>f < length m1. \<forall>b < B.
              (\<forall>ib. (b, Some ib) \<in> set bs \<and> f < F \<longrightarrow>
                  calculate_fcurve_data M ib (m1 ! f ! b) = Inr (m' ! f ! b)) \<and>
              (((\<forall>ib. (b, Some ib) \<notin> set bs) \<or> F \<le> f) \<longrightarrow> m' ! f ! b = m1 ! f ! b)"
      by blast
    have m'_conv: "calculate_fcurve_data M ib (m1 ! f ! b) = Inr (m' ! f ! b)"
      if "f < length m" "b < B" "(b, Some ib) \<in> set bs" "f < F" for f b ib
      using m'(4)[rule_format, of f b] that m1(2) by simp
    have m'_same: "m' ! f ! b = m1 ! f ! b"
      if "f < length m" "b < B" "(\<forall>ib. (b, Some ib) \<notin> set bs) \<or> F \<le> f" for f b
      using m'(4)[rule_format, of f b] that m1(2) by simp
    show ?thesis
    proof (intro exI[of _ m'] conjI allI impI)
      show "convert_bones M (p # bs) F m = Inr m'" using p Some m1(1) m'(1) by simp
      show "length m' = length m" using m'(2) m1(2) by simp
      show "wf_matrix B m'" by (rule m'(3))
    next
      fix f b ib assume f: "f < length m" and b: "b < B"
        and h: "(b, Some ib) \<in> set (p # bs) \<and> f < F"
      show "calculate_fcurve_data M ib (m ! f ! b) = Inr (m' ! f ! b)"
      proof (cases "(b, Some ib) \<in> set bs")
        case True
        then have "b \<noteq> i" using ni by force
        then have "m1 ! f ! b = m ! f ! b" using m1_same f b by simp
        then show ?thesis using m'_conv[OF f b True] h by simp
      next
        case False
        then have e: "b = i" "ib = ib0" using h p Some by auto
        have "\<forall>ib. (i, Some ib) \<notin> set bs" using ni by force
        then have "m' ! f ! i = m1 ! f ! i" using m'_same[OF f iB] by simp
        then show ?thesis using m1_conv h e by simp
      qed
    next
      fix f b assume f: "f < length m" and b: "b < B"
        and h: "(\<forall>ib. (b, Some ib) \<notin> set (p # bs)) \<or> F \<le> f"
      have "b \<noteq> i \<or> F \<le> f" using h p Some by auto
      then have "m1 ! f ! b = m ! f ! b" using m1_same f b by simp
      moreover have "m' ! f ! b = m1 ! f ! b" using m'_same[OF f b] h by auto
      ultimately show "m' ! f ! b = m ! f ! b" by simp
    qed
  qed
qed

lemma convert_sequence_char:
  assumes "wf_matrix (length import_bones) m" and "F \<le> length m"
  shows "\<exists>m'. convert_sequence M import_bones F m = Inr m' \<and> length m' = length m \<and>
           wf_matrix (length import_bones) m' \<and>
           (\<forall>f < length m. \<forall>b < length import_bones.
              (case import_bones ! b of
                 Some ib \<Rightarrow> if f < F then calculate_fcurve_data M ib (m ! f ! b) = Inr (m' ! f ! b)
                            else m' ! f ! b = m ! f ! b
               | None \<Rightarrow> m' ! f ! b = m ! f ! b))"
proof -
  let ?bs = "enumerate 0 import_bones"
  have d: "distinct (map fst ?bs)" by simp
  have lt: "\<forall>p \<in> set ?bs. fst p < length import_bones" by (auto simp: in_set_enumerate_eq)
  from convert_bones_char[OF d lt assms, of M] obtain m' where m':
    "convert_bones M ?bs F m = Inr m'" "length m' = length m" "wf_matrix (length import_bones) m'"
    "\<forall>f < length m. \<forall>b < length import_bones.
              (\<forall>ib. (b, Some ib) \<in> set ?bs \<and> f < F \<longrightarrow>
                  calculate_fcurve_data M ib (m ! f ! b) = Inr (m' ! f ! b)) \<and>
              (((\<forall>ib. (b, Some ib) \<notin> set ?bs) \<or> F \<le> f) \<longrightarrow> m' ! f ! b = m ! f ! b)"
    by blast
  show ?thesis
  proof (intro exI[of _ m'] conjI allI impI)
    show "convert_sequence M import_bones F m = Inr m'" using m'(1) by (simp add: convert_sequence_def)
    show "length m' = length m" by (rule m'(2))
    show "wf_matrix (length import_bones) m'" by (rule m'(3))
  next
    fix f b assume f: "f < length m" and b: "b < length import_bones"
    have mem: "(b, x) \<in> set ?bs \<longleftrightarrow> import_bones ! b = x" for x
      using b by (auto simp: in_set_enumerate_eq)
    show "case import_bones ! b of
                 Some ib \<Rightarrow> if f < F then calculate_fcurve_data M ib (m ! f ! b) = Inr (m' ! f ! b)
                            else m' ! f ! b = m ! f ! b
               | None \<Rightarrow> m' ! f ! b = m ! f ! b"
    proof (cases "import_bones ! b")
      case None
      then have "\<forall>ib. (b, Some ib) \<notin> set ?bs" using mem by simp
      then show ?thesis using m'(4) f b None by simp
    next
      case (Some ib)
      then have "(b, Some ib) \<in> set ?bs" using mem by simp
      then show ?thesis using m'(4) f b Some by (cases "f < F") auto
    qed
  qed
qed

lemma length_keep_from [simp]: "length (keep_from t lst ds) = length ds"
  by (induction ds arbitrary: lst) auto

lemma length_keep_list [simp]: "length (keep_list t ds) = length ds"
  by (simp add: keep_list_def split: list.splits)

lemma setitem3_ok:
  assumes "wf_matrix B w" "f < length w" "b < B" "c < 7"
  shows "setitem3 w f b c v = Inr (w[f := (w ! f)[b := (w ! f ! b)[c := v]]])"
  using assms wf_matrix_nth[OF assms(1,2)] by (simp add: setitem3_def)

lemma update3_wf:
  assumes "wf_matrix B w" "f < length w" "b < B"
  shows "wf_matrix B (w[f := (w ! f)[b := (w ! f ! b)[c := v]]])"
proof (rule wf_matrixI)
  fix g assume g: "g < length (w[f := (w ! f)[b := (w ! f ! b)[c := v]]])"
  then show "length (w[f := (w ! f)[b := (w ! f ! b)[c := v]]] ! g) = B"
    using wf_matrix_nth(1)[OF assms(1)] by (cases "g = f") auto
  fix b' assume b': "b' < B"
  show "length (w[f := (w ! f)[b := (w ! f ! b)[c := v]]] ! g ! b') = 7"
    using wf_matrix_nth[OF assms(1)] g b' assms(2,3)
    by (cases "g = f"; cases "b' = b") auto
qed

lemma update3_nth:
  assumes "wf_matrix B w" "f < length w" "b < B" "c < 7" "g < length w" "b' < B" "c' < 7"
  shows "w[f := (w ! f)[b := (w ! f ! b)[c := v]]] ! g ! b' ! c' =
           (if g = f \<and> b' = b \<and> c' = c then v else w ! g ! b' ! c')"
  using wf_matrix_nth[OF assms(1)] assms(2-)
  by (cases "g = f"; cases "b' = b"; cases "c' = c") auto

lemma clean_fcurve_pos:
  assumes "wf_matrix B w" "b < B" "c < 7" "0 < n" "n + length ds \<le> length w"
  shows "\<exists>w'. clean_fcurve t b c (enumerate n ds) lst w = Inr w' \<and> length w' = length w \<and>
           wf_matrix B w' \<and>
           (\<forall>f < length w. \<forall>b' < B. \<forall>c' < 7.
              w' ! f ! b' ! c' =
                (if b' = b \<and> c' = c \<and> n \<le> f \<and> f < n + length ds \<and> \<not> keep_from t lst ds ! (f - n)
                 then 0 else w ! f ! b' ! c'))"
  using assms
proof (induction ds arbitrary: n lst w)
  case Nil
  then show ?case by simp
next
  case (Cons d ds)
  have nl: "n < length w" using Cons.prems by simp
  show ?case
  proof (cases "\<bar>d - lst\<bar> < t")
    case True
    let ?w1 = "w[n := (w ! n)[b := (w ! n ! b)[c := 0]]]"
    have s: "setitem3 w n b c 0 = Inr ?w1" using setitem3_ok[OF Cons.prems(1) nl Cons.prems(2,3)] .
    have wf1: "wf_matrix B ?w1" using update3_wf[OF Cons.prems(1) nl Cons.prems(2)] .
    have l1: "Suc n + length ds \<le> length ?w1" using Cons.prems by simp
    from Cons.IH[OF wf1 Cons.prems(2,3) _ l1, of lst] obtain w' where w':
      "clean_fcurve t b c (enumerate (Suc n) ds) lst ?w1 = Inr w'" "length w' = length ?w1"
      "wf_matrix B w'"
      "\<forall>f < length ?w1. \<forall>b' < B. \<forall>c' < 7.
              w' ! f ! b' ! c' =
                (if b' = b \<and> c' = c \<and> Suc n \<le> f \<and> f < Suc n + length ds \<and> \<not> keep_from t lst ds ! (f - Suc n)
                 then 0 else ?w1 ! f ! b' ! c')" by auto
    show ?thesis
    proof (intro exI[of _ w'] conjI allI impI)
      show "clean_fcurve t b c (enumerate n (d # ds)) lst w = Inr w'"
        using True Cons.prems(4) s w'(1) by simp
      show "length w' = length w" using w'(2) by simp
      show "wf_matrix B w'" by (rule w'(3))
    next
      fix f b' c' assume h: "f < length w" "b' < B" "c' < (7::nat)"
      have a: "w' ! f ! b' ! c' =
                (if b' = b \<and> c' = c \<and> Suc n \<le> f \<and> f < Suc n + length ds \<and> \<not> keep_from t lst ds ! (f - Suc n)
                 then 0 else ?w1 ! f ! b' ! c')" using w'(4) h by simp
      have b: "?w1 ! f ! b' ! c' = (if f = n \<and> b' = b \<and> c' = c then 0 else w ! f ! b' ! c')"
        using update3_nth[OF Cons.prems(1) nl Cons.prems(2,3) h] .
      show "w' ! f ! b' ! c' =
                (if b' = b \<and> c' = c \<and> n \<le> f \<and> f < n + length (d # ds) \<and> \<not> keep_from t lst (d # ds) ! (f - n)
                 then 0 else w ! f ! b' ! c')"
      proof (cases "f = n")
        case True
        then show ?thesis using a b \<open>\<bar>d - lst\<bar> < t\<close> by simp
      next
        case False
        then show ?thesis using a b \<open>\<bar>d - lst\<bar> < t\<close>
          by (cases "n \<le> f") (auto simp: Suc_diff_le nth_Cons')
      qed
    qed
  next
    case False
    have l1: "Suc n + length ds \<le> length w" using Cons.prems by simp
    from Cons.IH[OF Cons.prems(1,2,3) _ l1, of d] obtain w' where w':
      "clean_fcurve t b c (enumerate (Suc n) ds) d w = Inr w'" "length w' = length w"
      "wf_matrix B w'"
      "\<forall>f < length w. \<forall>b' < B. \<forall>c' < 7.
              w' ! f ! b' ! c' =
                (if b' = b \<and> c' = c \<and> Suc n \<le> f \<and> f < Suc n + length ds \<and> \<not> keep_from t d ds ! (f - Suc n)
                 then 0 else w ! f ! b' ! c')" by auto
    show ?thesis
    proof (intro exI[of _ w'] conjI allI impI)
      show "clean_fcurve t b c (enumerate n (d # ds)) lst w = Inr w'"
        using False w'(1) by simp
      show "length w' = length w" using w'(2) by simp
      show "wf_matrix B w'" by (rule w'(3))
    next
      fix f b' c' assume h: "f < length w" "b' < B" "c' < (7::nat)"
      have a: "w' ! f ! b' ! c' =
                (if b' = b \<and> c' = c \<and> Suc n \<le> f \<and> f < Suc n + length ds \<and> \<not> keep_from t d ds ! (f - Suc n)
                 then 0 else w ! f ! b' ! c')" using w'(4) h by simp
      show "w' ! f ! b' ! c' =
                (if b' = b \<and> c' = c \<and> n \<le> f \<and> f < n + length (d # ds) \<and> \<not> keep_from t lst (d # ds) ! (f - n)
                 then 0 else w ! f ! b' ! c')"
      proof (cases "f = n")
        case True
        then show ?thesis using a False by simp
      next
        case False
        then show ?thesis using a \<open>\<not> \<bar>d - lst\<bar> < t\<close>
          by (cases "n \<le> f") (auto simp: Suc_diff_le nth_Cons')
      qed
    qed
  qed
qed

lemma clean_fcurve_char:
  assumes "wf_matrix B w" "b < B" "c < 7" "length ds \<le> length w"
  shows "\<exists>w'. clean_fcurve t b c (enumerate 0 ds) 0 w = Inr w' \<and> length w' = length w \<and>
           wf_matrix B w' \<and>
           (\<forall>f < length w. \<forall>b' < B. \<forall>c' < 7.
              w' ! f ! b' ! c' =
                (if b' = b \<and> c' = c \<and> f < length ds \<and> \<not> keep_list t ds ! f
                 then 0 else w ! f ! b' ! c'))"
proof (cases ds)
  case Nil
  then show ?thesis using assms by simp
next
  case (Cons d rest)
  have l: "1 + length rest \<le> length w" using assms(4) Cons by simp
  from clean_fcurve_pos[OF assms(1,2,3) _ l, of t d] obtain w' where w':
    "clean_fcurve t b c (enumerate 1 rest) d w = Inr w'" "length w' = length w" "wf_matrix B w'"
    "\<forall>f < length w. \<forall>b' < B. \<forall>c' < 7.
              w' ! f ! b' ! c' =
                (if b' = b \<and> c' = c \<and> 1 \<le> f \<and> f < 1 + length rest \<and> \<not> keep_from t d rest ! (f - 1)
                 then 0 else w ! f ! b' ! c')" by auto
  show ?thesis
  proof (intro exI[of _ w'] conjI allI impI)
    show "clean_fcurve t b c (enumerate 0 ds) 0 w = Inr w'" using Cons w'(1) by simp
    show "length w' = length w" by (rule w'(2))
    show "wf_matrix B w'" by (rule w'(3))
  next
    fix f b' c' assume h: "f < length w" "b' < B" "c' < (7::nat)"
    show "w' ! f ! b' ! c' =
                (if b' = b \<and> c' = c \<and> f < length ds \<and> \<not> keep_list t ds ! f
                 then 0 else w ! f ! b' ! c')"
      using w'(4)[rule_format, OF h] Cons
      by (cases f) (auto simp: keep_list_def)
  qed
qed

lemma slice_fcurve_ok:
  assumes "wf_matrix B m" "b < B" "c < 7"
  shows "slice_fcurve m b c = Inr (map (\<lambda>row. row ! b ! c) m)"
proof -
  have "\<forall>row \<in> set m. b < length row \<and> c < length (row ! b)"
    using assms by (auto simp: wf_matrix_def)
  then show ?thesis by (simp add: slice_fcurve_def)
qed

lemma clean_fcurves_char:
  assumes "wf_matrix B m" "wf_matrix B w" "length w = length m" "b < B"
    and "distinct cs" "\<forall>c \<in> set cs. c < 7"
  shows "\<exists>w'. clean_fcurves t b cs m w = Inr w' \<and> length w' = length w \<and> wf_matrix B w' \<and>
           (\<forall>f < length w. \<forall>b' < B. \<forall>c' < 7.
              w' ! f ! b' ! c' =
                (if b' = b \<and> c' \<in> set cs \<and> \<not> keep_list t (map (\<lambda>row. row ! b ! c') m) ! f
                 then 0 else w ! f ! b' ! c'))"
  using assms
proof (induction cs arbitrary: w)
  case Nil
  then show ?case by simp
next
  case (Cons c cs)
  have c7: "c < 7" and nc: "c \<notin> set cs" and d: "distinct cs" and lt: "\<forall>c \<in> set cs. c < 7"
    using Cons.prems by auto
  let ?ds = "map (\<lambda>row. row ! b ! c) m"
  have sl: "slice_fcurve m b c = Inr ?ds" using slice_fcurve_ok[OF Cons.prems(1,4) c7] .
  have ll: "length ?ds \<le> length w" using Cons.prems(3) by simp
  from clean_fcurve_char[OF Cons.prems(2,4) c7 ll, of t] obtain w1 where w1:
    "clean_fcurve t b c (enumerate 0 ?ds) 0 w = Inr w1" "length w1 = length w" "wf_matrix B w1"
    "\<forall>f < length w. \<forall>b' < B. \<forall>c' < 7.
              w1 ! f ! b' ! c' =
                (if b' = b \<and> c' = c \<and> f < length ?ds \<and> \<not> keep_list t ?ds ! f
                 then 0 else w ! f ! b' ! c')" by blast
  have l1: "length w1 = length m" using w1(2) Cons.prems(3) by simp
  from Cons.IH[OF Cons.prems(1) w1(3) l1 Cons.prems(4) d lt] obtain w' where w':
    "clean_fcurves t b cs m w1 = Inr w'" "length w' = length w1" "wf_matrix B w'"
    "\<forall>f < length w1. \<forall>b' < B. \<forall>c' < 7.
              w' ! f ! b' ! c' =
                (if b' = b \<and> c' \<in> set cs \<and> \<not> keep_list t (map (\<lambda>row. row ! b ! c') m) ! f
                 then 0 else w1 ! f ! b' ! c')" by blast
  show ?case
  proof (intro exI[of _ w'] conjI allI impI)
    show "clean_fcurves t b (c # cs) m w = Inr w'" using sl w1(1) w'(1) by simp
    show "length w' = length w" using w'(2) w1(2) by simp
    show "wf_matrix B w'" by (rule w'(3))
  next
    fix f b' c' assume h: "f < length w" "b' < B" "c' < (7::nat)"
    have h1: "f < length w1" using h w1(2) by simp
    have a: "w' ! f ! b' ! c' =
                (if b' = b \<and> c' \<in> set cs \<and> \<not> keep_list t (map (\<lambda>row. row ! b ! c') m) ! f
                 then 0 else w1 ! f ! b' ! c')" using w'(4)[rule_format, OF h1 h(2,3)] .
    have bb: "w1 ! f ! b' ! c' =
                (if b' = b \<and> c' = c \<and> f < length ?ds \<and> \<not> keep_list t ?ds ! f
                 then 0 else w ! f ! b' ! c')" using w1(4)[rule_format, OF h] .
    have fl: "f < length ?ds" using h(1) Cons.prems(3) by simp
    show "w' ! f ! b' ! c' =
                (if b' = b \<and> c' \<in> set (c # cs) \<and> \<not> keep_list t (map (\<lambda>row. row ! b ! c') m) ! f
                 then 0 else w ! f ! b' ! c')"
      using a bb fl nc by (cases "c' = c") auto
  qed
qed

lemma clean_bones_char:
  assumes "wf_matrix B m" "wf_matrix B w" "length w = length m"
    and "distinct (map fst bs)" "\<forall>p \<in> set bs. fst p < B"
    and "\<forall>b ib. (b, Some ib) \<in> set bs \<longrightarrow> length (fcurves ib) \<le> 7"
  shows "\<exists>w'. clean_bones t bs m w = Inr w' \<and> length w' = length w \<and> wf_matrix B w' \<and>
           (\<forall>f < length w. \<forall>b < B. \<forall>c < 7.
              w' ! f ! b ! c =
                (if (\<exists>ib. (b, Some ib) \<in> set bs \<and> c < length (fcurves ib)) \<and>
                    \<not> keep_list t (map (\<lambda>row. row ! b ! c) m) ! f
                 then 0 else w ! f ! b ! c))"
  using assms
proof (induction bs arbitrary: w)
  case Nil
  then show ?case by simp
next
  case (Cons p bs)
  obtain i o_ib where p: "p = (i, o_ib)" by (cases p)
  have iB: "i < B" using Cons.prems(5) p by simp
  have d: "distinct (map fst bs)" and ni: "i \<notin> fst ` set bs" using Cons.prems(4) p by auto
  have lt: "\<forall>p \<in> set bs. fst p < B" using Cons.prems(5) by simp
  have fc: "\<forall>b ib. (b, Some ib) \<in> set bs \<longrightarrow> length (fcurves ib) \<le> 7" using Cons.prems(6) by simp
  have ni': "(i, x) \<notin> set bs" for x using ni by force
  show ?case
  proof (cases o_ib)
    case None
    from Cons.IH[OF Cons.prems(1,2,3) d lt fc] obtain w' where w':
      "clean_bones t bs m w = Inr w'" "length w' = length w" "wf_matrix B w'"
      "\<forall>f < length w. \<forall>b < B. \<forall>c < 7.
              w' ! f ! b ! c =
                (if (\<exists>ib. (b, Some ib) \<in> set bs \<and> c < length (fcurves ib)) \<and>
                    \<not> keep_list t (map (\<lambda>row. row ! b ! c) m) ! f
                 then 0 else w ! f ! b ! c)" by blast
    show ?thesis
      using w' p None by (intro exI[of _ w']) auto
  next
    case (Some ib0)
    have n7: "length (fcurves ib0) \<le> 7" using Cons.prems(6) p Some by auto
    have cs: "distinct [0..<length (fcurves ib0)]" "\<forall>c \<in> set [0..<length (fcurves ib0)]. c < 7"
      using n7 by auto
    from clean_fcurves_char[OF Cons.prems(1,2,3) iB cs, of t] obtain w1 where w1:
      "clean_fcurves t i [0..<length (fcurves ib0)] m w = Inr w1" "length w1 = length w"
      "wf_matrix B w1"
      "\<forall>f < length w. \<forall>b' < B. \<forall>c' < 7.
              w1 ! f ! b' ! c' =
                (if b' = i \<and> c' \<in> set [0..<length (fcurves ib0)] \<and>
                    \<not> keep_list t (map (\<lambda>row. row ! i ! c') m) ! f
                 then 0 else w ! f ! b' ! c')" by blast
    have l1: "length w1 = length m" using w1(2) Cons.prems(3) by simp
    from Cons.IH[OF Cons.prems(1) w1(3) l1 d lt fc] obtain w' where w':
      "clean_bones t bs m w1 = Inr w'" "length w' = length w1" "wf_matrix B w'"
      "\<forall>f < length w1. \<forall>b < B. \<forall>c < 7.
              w' ! f ! b ! c =
                (if (\<exists>ib. (b, Some ib) \<in> set bs \<and> c < length (fcurves ib)) \<and>
                    \<not> keep_list t (map (\<lambda>row. row ! b ! c) m) ! f
                 then 0 else w1 ! f ! b ! c)" by blast
    show ?thesis
    proof (intro exI[of _ w'] conjI allI impI)
      show "clean_bones t (p # bs) m w = Inr w'" using p Some w1(1) w'(1) by simp
      show "length w' = length w" using w'(2) w1(2) by simp
      show "wf_matrix B w'" by (rule w'(3))
    next
      fix f b c assume h: "f < length w" "b < B" "c < (7::nat)"
      have h1: "f < length w1" using h w1(2) by simp
      have a: "w' ! f ! b ! c =
                (if (\<exists>ib. (b, Some ib) \<in> set bs \<and> c < length (fcurves ib)) \<and>
                    \<not> keep_list t (map (\<lambda>row. row ! b ! c) m) ! f
                 then 0 else w1 ! f ! b ! c)" using w'(4)[rule_format, OF h1 h(2,3)] .
      have bb: "w1 ! f ! b ! c =
                (if b = i \<and> c \<in> set [0..<length (fcurves ib0)] \<and>
                    \<not> keep_list t (map (\<lambda>row. row ! i ! c) m) ! f
                 then 0 else w ! f ! b ! c)" using w1(4)[rule_format, OF h] .
      show "w' ! f ! b ! c =
                (if (\<exists>ib. (b, Some ib) \<in> set (p # bs) \<and> c < length (fcurves ib)) \<and>
                    \<not> keep_list t (map (\<lambda>row. row ! b ! c) m) ! f
                 then 0 else w ! f ! b ! c)"
      proof (cases "b = i")
        case True
        then have "(\<exists>ib. (b, Some ib) \<in> set (p # bs) \<and> c < length (fcurves ib)) \<longleftrightarrow>
                     c < length (fcurves ib0)" using p Some ni' by auto
        moreover have "\<not> (\<exists>ib. (b, Some ib) \<in> set bs \<and> c < length (fcurves ib))"
          using True ni' by auto
        ultimately show ?thesis using a bb True by auto
      next
        case False
        then have "(\<exists>ib. (b, Some ib) \<in> set (p # bs) \<and> c < length (fcurves ib)) \<longleftrightarrow>
                     (\<exists>ib. (b, Some ib) \<in> set bs \<and> c < length (fcurves ib))" using p by auto
        then show ?thesis using a bb False by auto
      qed
    qed
  qed
qed

lemma wf_ones_like: "wf_matrix B m \<Longrightarrow> wf_matrix B (ones_like m)"
  by (auto simp: wf_matrix_def ones_like_def)

lemma ones_like_nth:
  "wf_matrix B m \<Longrightarrow> f < length m \<Longrightarrow> b < B \<Longrightarrow> c < 7 \<Longrightarrow> ones_like m ! f ! b ! c = 1"
  using wf_matrix_nth(1)[of B m f] wf_matrix_nth(2)[of B m f b] by (simp add: ones_like_def)

lemma clean_keys_char:
  assumes "wf_matrix (length import_bones) m"
    and "\<forall>ib \<in> set import_bones. \<forall>i. ib = Some i \<longrightarrow> length (fcurves i) \<le> 7"
  shows "\<exists>w. clean_keys t import_bones m = Inr w \<and> length w = length m \<and>
           wf_matrix (length import_bones) w \<and>
           (\<forall>f < length m. \<forall>b < length import_bones. \<forall>c < 7.
              w ! f ! b ! c =
                (case import_bones ! b of
                   None \<Rightarrow> 1
                 | Some ib \<Rightarrow> if c < length (fcurves ib) \<and>
                                 \<not> keep_list t (map (\<lambda>row. row ! b ! c) m) ! f then 0 else 1))"
proof -
  let ?bs = "enumerate 0 import_bones" and ?B = "length import_bones"
  have d: "distinct (map fst ?bs)" by simp
  have lt: "\<forall>p \<in> set ?bs. fst p < ?B" by (auto simp: in_set_enumerate_eq)
  have fc: "\<forall>b ib. (b, Some ib) \<in> set ?bs \<longrightarrow> length (fcurves ib) \<le> 7"
  proof (intro allI impI)
    fix b ib assume "(b, Some ib) \<in> set ?bs"
    then have "b < length import_bones" "import_bones ! b = Some ib"
      by (auto simp: in_set_enumerate_eq)
    then have "Some ib \<in> set import_bones" using nth_mem by metis
    then show "length (fcurves ib) \<le> 7" using assms(2) by blast
  qed
  have l: "length (ones_like m) = length m" by (simp add: ones_like_def)
  from clean_bones_char[OF assms(1) wf_ones_like[OF assms(1)] l d lt fc, of t] obtain w where w:
    "clean_bones t ?bs m (ones_like m) = Inr w" "length w = length (ones_like m)" "wf_matrix ?B w"
    "\<forall>f < length (ones_like m). \<forall>b < ?B. \<forall>c < 7.
              w ! f ! b ! c =
                (if (\<exists>ib. (b, Some ib) \<in> set ?bs \<and> c < length (fcurves ib)) \<and>
                    \<not> keep_list t (map (\<lambda>row. row ! b ! c) m) ! f
                 then 0 else ones_like m ! f ! b ! c)" by blast
  show ?thesis
  proof (intro exI[of _ w] conjI allI impI)
    show "clean_keys t import_bones m = Inr w" using w(1) by (simp add: clean_keys_def)
    show "length w = length m" using w(2) l by simp
    show "wf_matrix ?B w" by (rule w(3))
  next
    fix f b c assume h: "f < length m" "b < ?B" "c < (7::nat)"
    have h1: "f < length (ones_like m)" using h l by simp
    have mem: "(b, x) \<in> set ?bs \<longleftrightarrow> import_bones ! b = x" for x
      using h(2) by (auto simp: in_set_enumerate_eq)
    have a: "w ! f ! b ! c =
                (if (\<exists>ib. import_bones ! b = Some ib \<and> c < length (fcurves ib)) \<and>
                    \<not> keep_list t (map (\<lambda>row. row ! b ! c) m) ! f
                 then 0 else 1)"
      using w(4)[rule_format, OF h1 h(2,3)] ones_like_nth[OF assms(1) h] mem by simp
    show "w ! f ! b ! c =
                (case import_bones ! b of
                   None \<Rightarrow> 1
                 | Some ib \<Rightarrow> if c < length (fcurves ib) \<and>
                                 \<not> keep_list t (map (\<lambda>row. row ! b ! c) m) ! f then 0 else 1)"
      using a by (cases "import_bones ! b") auto
  qed
qed

lemma keep_from_rule:
  assumes "i < length ds"
  shows "(\<exists>j < i. keep_from t lst ds ! j \<and> (\<forall>k. j < k \<and> k < i \<longrightarrow> \<not> keep_from t lst ds ! k) \<and>
             (keep_from t lst ds ! i \<longleftrightarrow> t \<le> \<bar>ds ! i - ds ! j\<bar>))
       \<or> ((\<forall>k < i. \<not> keep_from t lst ds ! k) \<and>
             (keep_from t lst ds ! i \<longleftrightarrow> t \<le> \<bar>ds ! i - lst\<bar>))"
  using assms
proof (induction ds arbitrary: lst i)
  case Nil
  then show ?case by simp
next
  case (Cons d ds)
  show ?case
  proof (cases i)
    case 0
    then show ?thesis by auto
  next
    case (Suc i')
    then have i': "i' < length ds" using Cons.prems by simp
    show ?thesis
    proof (cases "\<bar>d - lst\<bar> < t")
      case True
      from Cons.IH[OF i', of lst] show ?thesis
      proof
        assume "\<exists>j < i'. keep_from t lst ds ! j \<and> (\<forall>k. j < k \<and> k < i' \<longrightarrow> \<not> keep_from t lst ds ! k) \<and>
             (keep_from t lst ds ! i' \<longleftrightarrow> t \<le> \<bar>ds ! i' - ds ! j\<bar>)"
        then obtain j where j: "j < i'" "keep_from t lst ds ! j"
          "\<forall>k. j < k \<and> k < i' \<longrightarrow> \<not> keep_from t lst ds ! k"
          "keep_from t lst ds ! i' \<longleftrightarrow> t \<le> \<bar>ds ! i' - ds ! j\<bar>" by blast
        have "\<forall>k. Suc j < k \<and> k < i \<longrightarrow> \<not> keep_from t lst (d # ds) ! k"
        proof (intro allI impI)
          fix k assume k: "Suc j < k \<and> k < i"
          then obtain k' where k': "k = Suc k'" by (cases k) auto
          then show "\<not> keep_from t lst (d # ds) ! k" using j(3) k Suc True by auto
        qed
        then have "Suc j < i \<and> keep_from t lst (d # ds) ! Suc j \<and>
             (\<forall>k. Suc j < k \<and> k < i \<longrightarrow> \<not> keep_from t lst (d # ds) ! k) \<and>
             (keep_from t lst (d # ds) ! i \<longleftrightarrow> t \<le> \<bar>(d # ds) ! i - (d # ds) ! Suc j\<bar>)"
          using j Suc True by simp
        then show ?thesis by blast
      next
        assume a: "(\<forall>k < i'. \<not> keep_from t lst ds ! k) \<and>
             (keep_from t lst ds ! i' \<longleftrightarrow> t \<le> \<bar>ds ! i' - lst\<bar>)"
        have "\<forall>k < i. \<not> keep_from t lst (d # ds) ! k"
        proof (intro allI impI)
          fix k assume "k < i"
          then show "\<not> keep_from t lst (d # ds) ! k" using a Suc True by (cases k) auto
        qed
        then show ?thesis using a Suc True by simp
      qed
    next
      case False
      from Cons.IH[OF i', of d] show ?thesis
      proof
        assume "\<exists>j < i'. keep_from t d ds ! j \<and> (\<forall>k. j < k \<and> k < i' \<longrightarrow> \<not> keep_from t d ds ! k) \<and>
             (keep_from t d ds ! i' \<longleftrightarrow> t \<le> \<bar>ds ! i' - ds ! j\<bar>)"
        then obtain j where j: "j < i'" "keep_from t d ds ! j"
          "\<forall>k. j < k \<and> k < i' \<longrightarrow> \<not> keep_from t d ds ! k"
          "keep_from t d ds ! i' \<longleftrightarrow> t \<le> \<bar>ds ! i' - ds ! j\<bar>" by blast
        have "\<forall>k. Suc j < k \<and> k < i \<longrightarrow> \<not> keep_from t lst (d # ds) ! k"
        proof (intro allI impI)
          fix k assume k: "Suc j < k \<and> k < i"
          then obtain k' where k': "k = Suc k'" by (cases k) auto
          then show "\<not> keep_from t lst (d # ds) ! k" using j(3) k Suc False by auto
        qed
        then have "Suc j < i \<and> keep_from t lst (d # ds) ! Suc j \<and>
             (\<forall>k. Suc j < k \<and> k < i \<longrightarrow> \<not> keep_from t lst (d # ds) ! k) \<and>
             (keep_from t lst (d # ds) ! i \<longleftrightarrow> t \<le> \<bar>(d # ds) ! i - (d # ds) ! Suc j\<bar>)"
          using j Suc False by simp
        then show ?thesis by blast
      next
        assume a: "(\<forall>k < i'. \<not> keep_from t d ds ! k) \<and>
             (keep_from t d ds ! i' \<longleftrightarrow> t \<le> \<bar>ds ! i' - d\<bar>)"
        have "\<forall>k. 0 < k \<and> k < i \<longrightarrow> \<not> keep_from t lst (d # ds) ! k"
        proof (intro allI impI)
          fix k assume k: "0 < k \<and> k < i"
          then obtain k' where k': "k = Suc k'" by (cases k) auto
          then show "\<not> keep_from t lst (d # ds) ! k" using a k Suc False by auto
        qed
        then have "0 < i \<and> keep_from t lst (d # ds) ! 0 \<and>
             (\<forall>k. 0 < k \<and> k < i \<longrightarrow> \<not> keep_from t lst (d # ds) ! k) \<and>
             (keep_from t lst (d # ds) ! i \<longleftrightarrow> t \<le> \<bar>(d # ds) ! i - (d # ds) ! 0\<bar>)"
          using a Suc False by simp
        then show ?thesis by blast
      qed
    qed
  qed
qed

lemma keep_list_first: "ds \<noteq> [] \<Longrightarrow> keep_list t ds ! 0"
  by (cases ds) (auto simp: keep_list_def)

lemma keep_list_rule:
  assumes "0 < i" "i < length ds"
  shows "\<exists>j < i. keep_list t ds ! j \<and> (\<forall>k. j < k \<and> k < i \<longrightarrow> \<not> keep_list t ds ! k) \<and>
             (keep_list t ds ! i \<longleftrightarrow> t \<le> \<bar>ds ! i - ds ! j\<bar>)"
proof -
  obtain d rest where ds: "ds = d # rest" using assms by (cases ds) auto
  obtain i' where i: "i = Suc i'" using assms(1) by (cases i) auto
  have i': "i' < length rest" using assms(2) ds i by simp
  have kl: "keep_list t ds = True # keep_from t d rest" using ds by (simp add: keep_list_def)
  from keep_from_rule[OF i', of t d] show ?thesis
  proof
    assume "\<exists>j < i'. keep_from t d rest ! j \<and> (\<forall>k. j < k \<and> k < i' \<longrightarrow> \<not> keep_from t d rest ! k) \<and>
             (keep_from t d rest ! i' \<longleftrightarrow> t \<le> \<bar>rest ! i' - rest ! j\<bar>)"
    then obtain j where j: "j < i'" "keep_from t d rest ! j"
      "\<forall>k. j < k \<and> k < i' \<longrightarrow> \<not> keep_from t d rest ! k"
      "keep_from t d rest ! i' \<longleftrightarrow> t \<le> \<bar>rest ! i' - rest ! j\<bar>" by blast
    have "\<forall>k. Suc j < k \<and> k < i \<longrightarrow> \<not> keep_list t ds ! k"
    proof (intro allI impI)
      fix k assume k: "Suc j < k \<and> k < i"
      then obtain k' where k': "k = Suc k'" by (cases k) auto
      then show "\<not> keep_list t ds ! k" using j(3) k i kl by auto
    qed
    then have "Suc j < i \<and> keep_list t ds ! Suc j \<and>
        (\<forall>k. Suc j < k \<and> k < i \<longrightarrow> \<not> keep_list t ds ! k) \<and>
        (keep_list t ds ! i \<longleftrightarrow> t \<le> \<bar>ds ! i - ds ! Suc j\<bar>)"
      using j i kl ds by simp
    then show ?thesis by blast
  next
    assume a: "(\<forall>k < i'. \<not> keep_from t d rest ! k) \<and>
             (keep_from t d rest ! i' \<longleftrightarrow> t \<le> \<bar>rest ! i' - d\<bar>)"
    have "\<forall>k. 0 < k \<and> k < i \<longrightarrow> \<not> keep_list t ds ! k"
    proof (intro allI impI)
      fix k assume k: "0 < k \<and> k < i"
      then obtain k' where k': "k = Suc k'" by (cases k) auto
      then show "\<not> keep_list t ds ! k" using a k i kl by auto
    qed
    then have "0 < i \<and> keep_list t ds ! 0 \<and>
        (\<forall>k. 0 < k \<and> k < i \<longrightarrow> \<not> keep_list t ds ! k) \<and>
        (keep_list t ds ! i \<longleftrightarrow> t \<le> \<bar>ds ! i - ds ! 0\<bar>)"
      using a i kl ds by simp
    then show ?thesis by blast
  qed
qed

lemma keep_from_nonpos: "t \<le> 0 \<Longrightarrow> i < length ds \<Longrightarrow> keep_from t lst ds ! i"
proof (induction ds arbitrary: lst i)
  case Nil
  then show ?case by simp
next
  case (Cons d ds)
  have "\<not> \<bar>d - lst\<bar> < t" using Cons.prems(1) by simp
  then show ?case using Cons by (cases i) auto
qed

lemma keep_list_nonpos: "t \<le> 0 \<Longrightarrow> i < length ds \<Longrightarrow> keep_list t ds ! i"
  by (cases ds; cases i) (auto simp: keep_list_def keep_from_nonpos)

lemma calculate_fcurve_data_spec:
  assumes "length k = 7"
  shows "calculate_fcurve_data M ib k =
           Inr (sample_of (spec_local_rotation M ib (key_rotation_of k))
                          (spec_local_translation M ib (key_location_of k)))"
proof -
  from assms obtain k0 k1 k2 k3 k4 k5 k6 where "k = [k0, k1, k2, k3, k4, k5, k6]"
    by (auto simp: numeral_eq_Suc length_Suc_conv)
  then show ?thesis
    by (simp add: Let_def sample_of_def spec_local_rotation_def spec_local_translation_def
        key_rotation_of_def key_location_of_def)
qed


lemmas eval_defs = convert_sequence_def getitem2_def setitem2_def exact_mathutils_def hamilton_def
      hamilton_vec_rotate_def conjugated_def vector_sub_def bone_a_def bone_b_def Let_def
      sample_of_def spec_local_rotation_def spec_local_translation_def key_rotation_of_def
      key_location_of_def wf_matrix_def


lemmas clean_eval = clean_keys_def ones_like_def slice_fcurve_def setitem3_def bone_b_def


section \<open>Removing an unmapped bone from the animation file\<close>


























lemma shift_index_neq: "shift_index k b \<noteq> k"
  by (auto simp: shift_index_def)

































section \<open>Claims about the animation importer\<close>

text \<open>
  Claim C1. For every bone that maps to the target armature and every frame, the retargeter
  replaces the raw sample (key_rotation, key_location) by the local sample of the formula of
  the specification: with q = post_quat \<circ> orig_quat and
  q' = post_quat \<circ> (conjugate(key_rotation) for a bone without parent, key_rotation
  otherwise), the rotation is q \<circ> conjugate(q') and the translation is
  (key_location - orig_loc) rotated by conjugate(post_quat). The composition is the
  library's \<^verbatim>\<open>rotate\<close>, applied in the order in which the specification writes its
  operands; the conversion of a well-shaped matrix does not raise.
\<close>

theorem retargeter_local_formula:
  assumes "wf_matrix (length import_bones) m" and "frame_count = length m"
    and "b < length import_bones" and "import_bones ! b = Some ib" and "f < frame_count"
  shows "\<exists>m'. convert_sequence M import_bones frame_count m = Inr m' \<and>
           m' ! f ! b = sample_of (spec_local_rotation M ib (key_rotation_of (m ! f ! b)))
                                  (spec_local_translation M ib (key_location_of (m ! f ! b)))"
proof -
  have F: "frame_count \<le> length m" using assms(2) by simp
  from convert_sequence_char[OF assms(1) F, of M] obtain m' where m':
    "convert_sequence M import_bones frame_count m = Inr m'"
    "\<forall>f < length m. \<forall>b < length import_bones.
              (case import_bones ! b of
                 Some ib \<Rightarrow> if f < frame_count then calculate_fcurve_data M ib (m ! f ! b) = Inr (m' ! f ! b)
                            else m' ! f ! b = m ! f ! b
               | None \<Rightarrow> m' ! f ! b = m ! f ! b)" by blast
  have fl: "f < length m" using assms(2,5) by simp
  have "calculate_fcurve_data M ib (m ! f ! b) = Inr (m' ! f ! b)"
    using m'(2)[rule_format, OF fl assms(3)] assms(4,5) by simp
  moreover have "length (m ! f ! b) = 7" using wf_matrix_nth(2)[OF assms(1) fl assms(3)] .
  ultimately show ?thesis using calculate_fcurve_data_spec[of "m ! f ! b" M ib] m'(1) by auto
qed


theorem retargeter_local_formula_witness:
  "wf_matrix (length [Some bone_a]) [[[0, 1, 0, 0, 1, 2, 3]]] \<and>
   (\<exists>m'. convert_sequence exact_mathutils [Some bone_a] 1 [[[0, 1, 0, 0, 1, 2, 3]]] = Inr m' \<and>
         m' ! 0 ! 0 = [0, 0, 0, - 1, 0, 2, - 3])"
  using retargeter_local_formula[of "[Some bone_a]" "[[[0, 1, 0, 0, 1, 2, 3]]]" 1 0 bone_a 0 exact_mathutils]
  by (simp add: eval_defs)


text \<open>
  Claim C7, as stated: after retargeting every sample of the matrix has been converted and no
  bone's samples are left in world space. It fails for a bone of the animation file that
  does not map to the armature: the loop skips it and its row stays as read.
\<close>

theorem conversion_leaves_unmapped_bone:
  "convert_sequence exact_mathutils [Some bone_a, None] 1
     [[[0, 1, 0, 0, 1, 2, 3], [0, 1, 0, 0, 1, 2, 3]]]
   = Inr [[[0, 0, 0, - 1, 0, 2, - 3], [0, 1, 0, 0, 1, 2, 3]]]"
  by (simp add: eval_defs)


text \<open>
  Claim C7, amended. On a well-shaped matrix the conversion of a sequence does not raise, so
  it is never left part-way; after it every sample of every bone that maps to the armature
  is the local-space conversion of the sample read, and every sample of a bone that does
  not map is unchanged.
\<close>

theorem conversion_of_mapped_bones:
  assumes "wf_matrix (length import_bones) m" and "frame_count = length m"
  shows "\<exists>m'. convert_sequence M import_bones frame_count m = Inr m' \<and>
           length m' = length m \<and> wf_matrix (length import_bones) m' \<and>
           (\<forall>f < frame_count. \<forall>b < length import_bones.
              (case import_bones ! b of
                 Some ib \<Rightarrow> calculate_fcurve_data M ib (m ! f ! b) = Inr (m' ! f ! b)
               | None \<Rightarrow> m' ! f ! b = m ! f ! b))"
proof -
  have F: "frame_count \<le> length m" using assms(2) by simp
  from convert_sequence_char[OF assms(1) F, of M] obtain m' where m':
    "convert_sequence M import_bones frame_count m = Inr m'" "length m' = length m"
    "wf_matrix (length import_bones) m'"
    "\<forall>f < length m. \<forall>b < length import_bones.
              (case import_bones ! b of
                 Some ib \<Rightarrow> if f < frame_count then calculate_fcurve_data M ib (m ! f ! b) = Inr (m' ! f ! b)
                            else m' ! f ! b = m ! f ! b
               | None \<Rightarrow> m' ! f ! b = m ! f ! b)" by blast
  show ?thesis
  proof (intro exI[of _ m'] conjI allI impI)
    fix f b assume h: "f < frame_count" "b < length import_bones"
    then have "f < length m" using assms(2) by simp
    from m'(4)[rule_format, OF this h(2)] h(1)
    show "case import_bones ! b of
                 Some ib \<Rightarrow> calculate_fcurve_data M ib (m ! f ! b) = Inr (m' ! f ! b)
               | None \<Rightarrow> m' ! f ! b = m ! f ! b"
      by (cases "import_bones ! b") auto
  qed (use m' in auto)
qed


theorem conversion_of_mapped_bones_witness:
  "wf_matrix (length [Some bone_a, None]) [[[0, 1, 0, 0, 1, 2, 3], [0, 1, 0, 0, 1, 2, 3]]] \<and>
   (\<exists>m'. convert_sequence exact_mathutils [Some bone_a, None] 1
            [[[0, 1, 0, 0, 1, 2, 3], [0, 1, 0, 0, 1, 2, 3]]] = Inr m' \<and>
          calculate_fcurve_data exact_mathutils bone_a [0, 1, 0, 0, 1, 2, 3] = Inr (m' ! 0 ! 0) \<and>
          m' ! 0 ! 1 = [0, 1, 0, 0, 1, 2, 3])"
  using conversion_of_mapped_bones[of "[Some bone_a, None]"
      "[[[0, 1, 0, 0, 1, 2, 3], [0, 1, 0, 0, 1, 2, 3]]]" 1 exact_mathutils]
  by (simp add: eval_defs)


text \<open>
  Claim C2, as stated, is about every bone. A bone that does not map to the armature is
  skipped by the cleaner: its entries of the write matrix stay 1 in every frame, also where
  the value did not change (second bone below), while the mapped bone drops the frame.
\<close>

theorem cleaner_skips_unmapped_bone:
  "clean_keys (1 / 1000) [Some bone_b, None]
     [[[1, 0, 0, 0, 0, 0, 0], [1, 0, 0, 0, 0, 0, 0]],
      [[1, 0, 0, 0, 0, 0, 0], [1, 0, 0, 0, 0, 0, 0]]]
   = Inr [[[1, 1, 1, 1, 1, 1, 1], [1, 1, 1, 1, 1, 1, 1]],
          [[0, 0, 0, 0, 0, 0, 0], [1, 1, 1, 1, 1, 1, 1]]]"
  by (simp add: clean_eval)


text \<open>
  Claim C2, amended to the bones that map to the armature. For such a bone and each of its
  7 channels the cleaner returns a write matrix of zeroes and ones in which frame 0 is kept,
  a frame i > 0 is kept if and only if its value differs from the value of the last kept
  frame before it by no less than the threshold, two consecutive kept frames differ by no
  less than the threshold, and with the threshold 0 every frame is kept.
\<close>

theorem key_cleaning_rule:
  assumes "wf_matrix (length import_bones) m"
    and "\<forall>x \<in> set import_bones. \<forall>i. x = Some i \<longrightarrow> length (fcurves i) = 7"
    and "b < length import_bones" and "import_bones ! b = Some ib" and "c < 7"
  shows "\<exists>w. clean_keys t import_bones m = Inr w \<and>
           (\<forall>i < length m. w ! i ! b ! c = 0 \<or> w ! i ! b ! c = 1) \<and>
           (0 < length m \<longrightarrow> w ! 0 ! b ! c = 1) \<and>
           (\<forall>i. 0 < i \<and> i < length m \<longrightarrow>
              (\<exists>j < i. w ! j ! b ! c = 1 \<and> (\<forall>k. j < k \<and> k < i \<longrightarrow> w ! k ! b ! c = 0) \<and>
                 (w ! i ! b ! c = 1 \<longleftrightarrow> t \<le> \<bar>m ! i ! b ! c - m ! j ! b ! c\<bar>))) \<and>
           (\<forall>i j. i < j \<and> j < length m \<and> w ! i ! b ! c = 1 \<and> w ! j ! b ! c = 1 \<and>
                  (\<forall>k. i < k \<and> k < j \<longrightarrow> w ! k ! b ! c = 0) \<longrightarrow>
                  t \<le> \<bar>m ! j ! b ! c - m ! i ! b ! c\<bar>) \<and>
           (t = 0 \<longrightarrow> (\<forall>i < length m. w ! i ! b ! c = 1))"
proof -
  let ?ds = "map (\<lambda>row. row ! b ! c) m"
  have a2: "\<forall>x \<in> set import_bones. \<forall>i. x = Some i \<longrightarrow> length (fcurves i) \<le> 7"
    using assms(2) by auto
  have "Some ib \<in> set import_bones" using assms(3,4) nth_mem by metis
  then have l7: "length (fcurves ib) = 7" using assms(2) by blast
  from clean_keys_char[OF assms(1) a2, of t] obtain w where w:
    "clean_keys t import_bones m = Inr w"
    "\<forall>f < length m. \<forall>b < length import_bones. \<forall>c < 7.
              w ! f ! b ! c =
                (case import_bones ! b of
                   None \<Rightarrow> 1
                 | Some ib \<Rightarrow> if c < length (fcurves ib) \<and>
                                 \<not> keep_list t (map (\<lambda>row. row ! b ! c) m) ! f then 0 else 1)"
    by blast
  have wk: "w ! i ! b ! c = (if keep_list t ?ds ! i then 1 else 0)" if "i < length m" for i
    using w(2)[rule_format, OF that assms(3,5)] assms(4,5) l7 by simp
  have k1: "w ! i ! b ! c = 1 \<longleftrightarrow> keep_list t ?ds ! i" if "i < length m" for i
    using wk[OF that] by simp
  have k0: "w ! i ! b ! c = 0 \<longleftrightarrow> \<not> keep_list t ?ds ! i" if "i < length m" for i
    using wk[OF that] by simp
  have rule: "\<exists>j < i. w ! j ! b ! c = 1 \<and> (\<forall>k. j < k \<and> k < i \<longrightarrow> w ! k ! b ! c = 0) \<and>
                 (w ! i ! b ! c = 1 \<longleftrightarrow> t \<le> \<bar>m ! i ! b ! c - m ! j ! b ! c\<bar>)"
    if i: "0 < i" "i < length m" for i
  proof -
    have "i < length ?ds" using i by simp
    from keep_list_rule[OF i(1) this, of t] obtain j where j: "j < i" "keep_list t ?ds ! j"
      "\<forall>k. j < k \<and> k < i \<longrightarrow> \<not> keep_list t ?ds ! k"
      "keep_list t ?ds ! i \<longleftrightarrow> t \<le> \<bar>?ds ! i - ?ds ! j\<bar>" by blast
    have jl: "j < length m" using j(1) i(2) by simp
    have "w ! j ! b ! c = 1" using k1[OF jl] j(2) by simp
    moreover have "\<forall>k. j < k \<and> k < i \<longrightarrow> w ! k ! b ! c = 0"
    proof (intro allI impI)
      fix k assume k: "j < k \<and> k < i"
      then have "k < length m" using i(2) by simp
      then show "w ! k ! b ! c = 0" using k0 j(3) k by simp
    qed
    moreover have "w ! i ! b ! c = 1 \<longleftrightarrow> t \<le> \<bar>m ! i ! b ! c - m ! j ! b ! c\<bar>"
      using k1[OF i(2)] j(4) i(2) jl by simp
    ultimately show ?thesis using j(1) by blast
  qed
  have consec: "t \<le> \<bar>m ! j ! b ! c - m ! i ! b ! c\<bar>"
    if h: "i < j \<and> j < length m \<and> w ! i ! b ! c = 1 \<and> w ! j ! b ! c = 1 \<and>
                  (\<forall>k. i < k \<and> k < j \<longrightarrow> w ! k ! b ! c = 0)" for i j
  proof -
    have "0 < j" using h by simp
    from rule[OF this] h obtain j' where j': "j' < j" "w ! j' ! b ! c = 1"
      "\<forall>k. j' < k \<and> k < j \<longrightarrow> w ! k ! b ! c = 0"
      "w ! j ! b ! c = 1 \<longleftrightarrow> t \<le> \<bar>m ! j ! b ! c - m ! j' ! b ! c\<bar>" by blast
    have "\<not> j' < i" using j'(3) h by force
    moreover have "\<not> i < j'" using j'(1,2) h by force
    ultimately have "j' = i" by simp
    then show ?thesis using j'(4) h by simp
  qed
  show ?thesis
  proof (intro exI[of _ w] conjI allI impI)
    show "clean_keys t import_bones m = Inr w" by (rule w(1))
  next
    fix i assume "i < length m"
    then show "w ! i ! b ! c = 0 \<or> w ! i ! b ! c = 1" using wk by simp
  next
    assume "0 < length m"
    then show "w ! 0 ! b ! c = 1" using k1[of 0] keep_list_first[of ?ds t] by simp
  next
    fix i assume "0 < i \<and> i < length m"
    then show "\<exists>j < i. w ! j ! b ! c = 1 \<and> (\<forall>k. j < k \<and> k < i \<longrightarrow> w ! k ! b ! c = 0) \<and>
                 (w ! i ! b ! c = 1 \<longleftrightarrow> t \<le> \<bar>m ! i ! b ! c - m ! j ! b ! c\<bar>)"
      using rule by blast
  next
    fix i j assume "i < j \<and> j < length m \<and> w ! i ! b ! c = 1 \<and> w ! j ! b ! c = 1 \<and>
                  (\<forall>k. i < k \<and> k < j \<longrightarrow> w ! k ! b ! c = 0)"
    then show "t \<le> \<bar>m ! j ! b ! c - m ! i ! b ! c\<bar>" by (rule consec)
  next
    fix i assume "t = 0" "i < length m"
    then show "w ! i ! b ! c = 1" using k1[of i] keep_list_nonpos[of t i ?ds] by simp
  qed
qed

theorem key_cleaning_rule_witness:
  "wf_matrix (length [Some bone_b])
     [[[1, 0, 0, 0, 0, 0, 0]], [[1, 0, 0, 0, 0, 1 / 2000, 0]], [[1, 0, 0, 0, 0, 1 / 500, 0]]] \<and>
   (\<exists>w. clean_keys (1 / 1000) [Some bone_b]
           [[[1, 0, 0, 0, 0, 0, 0]], [[1, 0, 0, 0, 0, 1 / 2000, 0]], [[1, 0, 0, 0, 0, 1 / 500, 0]]]
         = Inr w \<and> w ! 0 ! 0 ! 5 = 1 \<and> w ! 1 ! 0 ! 5 = 0 \<and> w ! 2 ! 0 ! 5 = 1)"
  using key_cleaning_rule[of "[Some bone_b]"
      "[[[1, 0, 0, 0, 0, 0, 0]], [[1, 0, 0, 0, 0, 1 / 2000, 0]], [[1, 0, 0, 0, 0, 1 / 500, 0]]]"
      0 bone_b 5 "1 / 1000"]
  by (simp add: clean_eval wf_matrix_def)




section \<open>The loops of the skeleton builder\<close>

subsection \<open>The second loop\<close>












subsection \<open>The third loop\<close>









subsection \<open>The three loops in sequence\<close>




subsection \<open>Evaluation of the examples\<close>







section \<open>Claims about the skeleton builder\<close>











end
